theory Spec2Isabelle
  imports Complex_Main "HOL-Library.Word" "HOL-Library.Sublist"
begin

unbundle bit_operations_syntax

section \<open>Lantern: the helpers of src/hnsw/utils.c\<close>

text \<open>
  A shallow embedding of \<^verbatim>\<open>src/hnsw/utils.c\<close>: the option projector
  \<^verbatim>\<open>PopulateUsearchOpts\<close>, the label codec \<^verbatim>\<open>GetUsearchLabel\<close>, the memory estimator
  \<^verbatim>\<open>CheckMem\<close>, the vector normaliser \<^verbatim>\<open>ToFloat4Array\<close> and the version gate
  \<^verbatim>\<open>VersionsMatch\<close>.

  C integers are words: \<^verbatim>\<open>int\<close> and \<^verbatim>\<open>uint32\<close> are 32 bits wide (an \<^verbatim>\<open>int\<close> is read
  with \<open>sint\<close>), \<^verbatim>\<open>size_t\<close>, \<^verbatim>\<open>Size\<close> and \<^verbatim>\<open>unsigned long\<close> are 64 bits wide (LP64, the
  data model of the hosts PostgreSQL runs on). A conversion from \<^verbatim>\<open>int\<close> to \<^verbatim>\<open>size_t\<close> is
  the sign extension \<open>scast\<close>, one between unsigned types is \<open>ucast\<close>.
\<close>

type_synonym c_int = "32 word"
type_synonym uint16 = "16 word"
type_synonym uint32 = "32 word"
type_synonym size_t = "64 word"
type_synonym byte = "8 word"

subsection \<open>Diagnostics\<close>

text \<open>
  \<^verbatim>\<open>elog(WARNING, ...)\<close> and \<^verbatim>\<open>elog(INFO, ...)\<close> print a line and return;
  \<^verbatim>\<open>elog(ERROR, ...)\<close> does not return: it leaves the function by a non-local jump. A
  function that can reach one therefore returns a sum, \<open>Inl\<close> carrying the fatal report.
\<close>

datatype elevel = INFO | WARNING | ERROR

subsection \<open>Option Projector\<close>

text \<open>
  \<^verbatim>\<open>usearch.h\<close> is not among the sources at hand. The two enumerations carry the names
  of the engine's C interface; \<^verbatim>\<open>usearch_init_options_t\<close> has the seven fields that
  \<^verbatim>\<open>LogUsearchOptions\<close> prints, the four counts as \<^verbatim>\<open>size_t\<close> (they are printed with
  \<^verbatim>\<open>%ld\<close>). The record is extensible, so a field the file never names is part of the
  \<open>more\<close> slot. The function pointer \<^verbatim>\<open>metric\<close> is an option, \<open>None\<close> being \<^verbatim>\<open>NULL\<close>.
\<close>

datatype usearch_metric_kind_t =
    usearch_metric_unknown_k
  | usearch_metric_cos_k
  | usearch_metric_ip_k
  | usearch_metric_l2sq_k
  | usearch_metric_haversine_k
  | usearch_metric_pearson_k
  | usearch_metric_jaccard_k
  | usearch_metric_hamming_k
  | usearch_metric_tanimoto_k
  | usearch_metric_sorensen_k

datatype usearch_scalar_kind_t =
    usearch_scalar_unknown_k
  | usearch_scalar_f32_k
  | usearch_scalar_f64_k
  | usearch_scalar_f16_k
  | usearch_scalar_f8_k
  | usearch_scalar_b1_k

record 'fn usearch_init_options_t =
  metric_kind :: usearch_metric_kind_t
  metric :: "'fn option"
  quantization :: usearch_scalar_kind_t
  dimensions :: size_t
  connectivity :: size_t
  expansion_add :: size_t
  expansion_search :: size_t

text \<open>
  Modelled from the spec: the index configuration accessors \<^verbatim>\<open>ldb_HnswGetM\<close>,
  \<^verbatim>\<open>ldb_HnswGetEfConstruction\<close>, \<^verbatim>\<open>ldb_HnswGetEf\<close> and \<^verbatim>\<open>ldb_HnswGetMetricKind\<close> live in
  \<^verbatim>\<open>options.c\<close>, which is not among the sources at hand. The spec gives them as
  get-operations for M, ef_construction, ef and the metric kind, scoped to one open index
  handle; the handle is the record of what they return, the three counts as C \<^verbatim>\<open>int\<close>.
\<close>

record Relation =
  rd_M :: c_int
  rd_ef_construction :: c_int
  rd_ef :: c_int
  rd_metric_kind :: usearch_metric_kind_t

definition ldb_HnswGetM :: "Relation \<Rightarrow> c_int" where
  "ldb_HnswGetM index = rd_M index"

definition ldb_HnswGetEfConstruction :: "Relation \<Rightarrow> c_int" where
  "ldb_HnswGetEfConstruction index = rd_ef_construction index"

definition ldb_HnswGetEf :: "Relation \<Rightarrow> c_int" where
  "ldb_HnswGetEf index = rd_ef index"

definition ldb_HnswGetMetricKind :: "Relation \<Rightarrow> usearch_metric_kind_t" where
  "ldb_HnswGetMetricKind index = rd_metric_kind index"

text \<open>
  \<^verbatim>\<open>PopulateUsearchOpts\<close> writes through the pointer \<^verbatim>\<open>opts\<close>: the model takes the record
  the pointer refers to and returns it updated, one assignment after the other.
\<close>

definition PopulateUsearchOpts ::
  "Relation \<Rightarrow> ('fn, 'z) usearch_init_options_t_scheme \<Rightarrow> ('fn, 'z) usearch_init_options_t_scheme"
where
  "PopulateUsearchOpts index opts =
    (let opts = opts\<lparr>connectivity := scast (ldb_HnswGetM index)\<rparr>;
         opts = opts\<lparr>expansion_add := scast (ldb_HnswGetEfConstruction index)\<rparr>;
         opts = opts\<lparr>expansion_search := scast (ldb_HnswGetEf index)\<rparr>;
         opts = opts\<lparr>metric_kind := ldb_HnswGetMetricKind index\<rparr>;
         opts = opts\<lparr>metric := None\<rparr>;
         opts = opts\<lparr>quantization := usearch_scalar_f32_k\<rparr>
     in opts)"

text \<open>A configuration is valid when none of its three counts is negative.\<close>

definition valid_config :: "Relation \<Rightarrow> bool" where
  "valid_config index \<longleftrightarrow>
     0 \<le> sint (rd_M index) \<and> 0 \<le> sint (rd_ef_construction index) \<and> 0 \<le> sint (rd_ef index)"

text \<open>
  The configuration (M = 16, ef_construction = 128, ef = 64, metric = cosine) of the spec,
  and an options record that holds other values in every field.
\<close>

definition example_index :: Relation where
  "example_index =
     \<lparr>rd_M = 16, rd_ef_construction = 128, rd_ef = 64, rd_metric_kind = usearch_metric_cos_k\<rparr>"

definition example_opts :: "unit usearch_init_options_t" where
  "example_opts =
     \<lparr>metric_kind = usearch_metric_unknown_k, metric = Some (),
      quantization = usearch_scalar_unknown_k, dimensions = 3, connectivity = 7,
      expansion_add = 8, expansion_search = 9\<rparr>"

subsection \<open>Node Label Codec\<close>

text \<open>
  \<^verbatim>\<open>ItemPointerData\<close> is the host's row identifier: the block number as two 16-bit
  halves and the 16-bit offset, six bytes with no padding. \<^verbatim>\<open>usearch_label_t\<close> is the
  engine's 64-bit label (the source copies into it through an \<^verbatim>\<open>unsigned long *\<close>).

  \<^verbatim>\<open>memcpy\<close> works on the bytes of the two objects, so both are given their object
  representation: the bytes in address order, least significant byte first (the byte order
  of x86-64 and of AArch64 as PostgreSQL is built for it).
\<close>

type_synonym usearch_label_t = "64 word"

record ItemPointerData =
  bi_hi :: uint16
  bi_lo :: uint16
  ip_posid :: uint16

definition bytes_of_uint16 :: "uint16 \<Rightarrow> byte list" where
  "bytes_of_uint16 w = [ucast w, ucast (drop_bit 8 w)]"

definition bytes_of_ItemPointer :: "ItemPointerData \<Rightarrow> byte list" where
  "bytes_of_ItemPointer p =
     bytes_of_uint16 (bi_hi p) @ bytes_of_uint16 (bi_lo p) @ bytes_of_uint16 (ip_posid p)"

definition bytes_of_label :: "usearch_label_t \<Rightarrow> byte list" where
  "bytes_of_label w = map (\<lambda>i. ucast (drop_bit (8 * i) w)) [0..<8]"

fun label_of_bytes :: "byte list \<Rightarrow> usearch_label_t" where
  "label_of_bytes [] = 0"
| "label_of_bytes (b # bs) = ucast b OR push_bit 8 (label_of_bytes bs)"

text \<open>\<^verbatim>\<open>memcpy(dst, src, n)\<close>: the first \<open>n\<close> bytes of \<open>dst\<close> become those of \<open>src\<close>.\<close>

definition memcpy :: "byte list \<Rightarrow> byte list \<Rightarrow> nat \<Rightarrow> byte list" where
  "memcpy dst src n = take n src @ drop n dst"

definition GetUsearchLabel :: "ItemPointerData \<Rightarrow> usearch_label_t" where
  "GetUsearchLabel itemPtr =
     (let label = 0;
          label_mem = memcpy (bytes_of_label label) (bytes_of_ItemPointer itemPtr) 6
      in label_of_bytes label_mem)"


subsection \<open>Memory Budget Estimator\<close>

text \<open>
  The engine handle \<^verbatim>\<open>uidx\<close> is the record of what \<^verbatim>\<open>usearch_metadata\<close> reads from it;
  the error slot the call fills is never read by \<^verbatim>\<open>CheckMem\<close>. Of the metadata the source
  reads the field \<^verbatim>\<open>dimensions\<close>, here \<open>meta_dimensions\<close> (the options record has a field
  of that name already); the rest sits in the extension slot of the record.
\<close>

record usearch_metadata_t =
  meta_dimensions :: size_t

record 'z usearch_index_t =
  index_metadata :: "'z usearch_metadata_t_scheme"

definition usearch_metadata :: "'z usearch_index_t \<Rightarrow> 'z usearch_metadata_t_scheme" where
  "usearch_metadata uidx = index_metadata uidx"

text \<open>
  \<^verbatim>\<open>(int)round(mL + 1)\<close> with \<^verbatim>\<open>mL = 1 / log(M)\<close>, \<open>M\<close> the connectivity converted to
  \<^verbatim>\<open>double\<close>. The model computes over the reals. For an integer \<open>M \<ge> 2\<close> the value
  \<open>1 / ln M + 1\<close> lies in \<open>(1, 2.45)\<close> and is never closer than \<open>0.01\<close> to \<open>1.5\<close> (it
  is \<open>1.514\<close> at 7 and \<open>1.481\<close> at 8), so the rounding error of the double computation
  cannot change the rounded result, and rounding half away from zero and \<open>round\<close> agree.
  Below 2 the C expression divides by zero or takes the logarithm of a non-positive
  number; the accessor's option is not declared for such values and the properties below
  assume \<open>2 \<le> M\<close>.
\<close>

definition rounded_mean_layers :: "c_int \<Rightarrow> c_int" where
  "rounded_mean_layers M_int =
     (let M = real_of_int (sint M_int);
          mL = 1 / ln M
      in word_of_int (round (mL + 1)))"

text \<open>
  Lines 68 to 76. \<^verbatim>\<open>UsearchNodeBytes\<close> is defined in \<^verbatim>\<open>external_index.c\<close>, which is not
  among the sources at hand: it is a parameter, taking the metadata, the vector's byte
  size and the layer count, its result at the width of \<^verbatim>\<open>node_size\<close>. A \<^verbatim>\<open>NULL\<close> index
  is \<open>None\<close>.
\<close>

definition CheckMem_node_size ::
  "('z usearch_metadata_t_scheme \<Rightarrow> size_t \<Rightarrow> c_int \<Rightarrow> uint32)
   \<Rightarrow> Relation option \<Rightarrow> 'z usearch_index_t \<Rightarrow> uint32" where
  "CheckMem_node_size UsearchNodeBytes index uidx =
     (case index of
        None \<Rightarrow> 0
      | Some index \<Rightarrow>
          (let meta = usearch_metadata uidx
           in UsearchNodeBytes meta (meta_dimensions meta * 4)
                (rounded_mean_layers (ldb_HnswGetM index))))"

text \<open>The product \<^verbatim>\<open>node_size * n_nodes\<close> of line 87, of two \<^verbatim>\<open>uint32\<close>.\<close>

definition projected_bytes ::
  "('z usearch_metadata_t_scheme \<Rightarrow> size_t \<Rightarrow> c_int \<Rightarrow> uint32)
   \<Rightarrow> Relation option \<Rightarrow> 'z usearch_index_t \<Rightarrow> uint32 \<Rightarrow> uint32" where
  "projected_bytes UsearchNodeBytes index uidx n_nodes =
     CheckMem_node_size UsearchNodeBytes index uidx * n_nodes"

text \<open>
  \<^verbatim>\<open>CheckMem\<close> returns the lines it prints. \<open>pg_mem\<close> is what
  \<^verbatim>\<open>MemoryContextMemAllocated\<close> reports at the call, and 0 on a host older than version 13.
  The sum on the left is a \<^verbatim>\<open>Size\<close>, the product on the right an \<^verbatim>\<open>unsigned long\<close>.
\<close>

definition CheckMem ::
  "('z usearch_metadata_t_scheme \<Rightarrow> size_t \<Rightarrow> c_int \<Rightarrow> uint32) \<Rightarrow> size_t
   \<Rightarrow> c_int \<Rightarrow> Relation option \<Rightarrow> 'z usearch_index_t \<Rightarrow> uint32 \<Rightarrow> string
   \<Rightarrow> (elevel \<times> string) list" where
  "CheckMem UsearchNodeBytes pg_mem limit index uidx n_nodes msg =
     (if pg_mem + ucast (projected_bytes UsearchNodeBytes index uidx n_nodes)
           > (ucast limit :: size_t) * 1024
      then [(WARNING, msg)]
      else [])"

text \<open>
  The sum and the budget the spec compares, over the naturals: the memory attributed to
  the process plus node size times node count, against the budget in KiB times 1024.
\<close>

definition spec_projected_total ::
  "('z usearch_metadata_t_scheme \<Rightarrow> size_t \<Rightarrow> c_int \<Rightarrow> uint32) \<Rightarrow> size_t
   \<Rightarrow> Relation option \<Rightarrow> 'z usearch_index_t \<Rightarrow> uint32 \<Rightarrow> nat" where
  "spec_projected_total UsearchNodeBytes pg_mem index uidx n_nodes =
     unat pg_mem + unat (CheckMem_node_size UsearchNodeBytes index uidx) * unat n_nodes"

definition spec_budget_bytes :: "c_int \<Rightarrow> nat" where
  "spec_budget_bytes limit = nat (sint limit) * 1024"

text \<open>
  An engine for the examples: 148 bytes of head and base-layer links, 68 bytes of links per
  further layer, and the vector; an index of 128 dimensions; and index handles of
  connectivity 4, 8 and 16.
\<close>

definition example_UsearchNodeBytes :: "usearch_metadata_t \<Rightarrow> size_t \<Rightarrow> c_int \<Rightarrow> uint32" where
  "example_UsearchNodeBytes meta vector_bytes level = 148 + 68 * level + ucast vector_bytes"

definition example_uidx :: "unit usearch_index_t" where
  "example_uidx = \<lparr>index_metadata = \<lparr>meta_dimensions = 128\<rparr>\<rparr>"

definition index_with_M :: "c_int \<Rightarrow> Relation" where
  "index_with_M M = example_index\<lparr>rd_M := M\<rparr>"

subsection \<open>Vector Normalizer\<close>

text \<open>
  An array value of the host: its element type, its dimensions (\<^verbatim>\<open>ARR_NDIM\<close> is their
  number) and the address of its data area. Memory is a list of blocks, an address the
  position of a block; a block is seen through the pointer type the source reads it with,
  \<^verbatim>\<open>float4 *\<close> or \<^verbatim>\<open>int32 *\<close>. The type \<open>'f4\<close> of a \<^verbatim>\<open>float4\<close> value and the conversion
  of an \<^verbatim>\<open>int32\<close> to it (the assignment \<^verbatim>\<open>result[i] = typed_src[i]\<close>) are parameters.
\<close>

type_synonym Oid = "32 word"
type_synonym addr = nat

definition FLOAT4OID :: Oid where
  "FLOAT4OID = 700"

definition INT4OID :: Oid where
  "INT4OID = 23"

datatype 'f4 block =
    float4_block "'f4 list"
  | int32_block "32 word list"
  | other_block "byte list"

record ArrayType =
  ARR_ELEMTYPE :: Oid
  ARR_DIMS :: "nat list"
  ARR_DATA_PTR :: addr

definition ARR_NDIM :: "ArrayType \<Rightarrow> nat" where
  "ARR_NDIM arr = length (ARR_DIMS arr)"

text \<open>
  \<^verbatim>\<open>ArrayGetNItems\<close> is the host's: the number of elements of an array of the given
  dimensions, 0 when there is no dimension. The host refuses to build an array beyond its
  size limit, so on an array value the function returns, and what it returns fits an
  \<^verbatim>\<open>int\<close>.
\<close>

definition ArrayGetNItems :: "nat \<Rightarrow> nat list \<Rightarrow> nat" where
  "ArrayGetNItems ndim dims = (if ndim = 0 then 0 else prod_list (take ndim dims))"

text \<open>
  \<^verbatim>\<open>palloc(nbytes)\<close>: a block of its own, behind every block there is; seen as
  \<^verbatim>\<open>float4\<close> cells it has \<open>nbytes div 4\<close> of them, each holding the arbitrary value
  \<open>junk\<close> until it is written. Running out of memory is left out.
\<close>

definition palloc :: "'f4 \<Rightarrow> nat \<Rightarrow> 'f4 block list \<Rightarrow> addr \<times> 'f4 block list" where
  "palloc junk nbytes heap = (length heap, heap @ [float4_block (replicate (nbytes div 4) junk)])"

text \<open>
  The loop of lines 104 to 106. A read of \<^verbatim>\<open>typed_src[i]\<close> beyond the data area is
  undefined in C: the loop then has no result, \<open>None\<close>.
\<close>

function ToFloat4Array_loop ::
  "(32 word \<Rightarrow> 'f4) \<Rightarrow> 32 word list \<Rightarrow> nat \<Rightarrow> nat \<Rightarrow> 'f4 list \<Rightarrow> 'f4 list option" where
  "ToFloat4Array_loop cvt typed_src arr_dim i result =
     (if i < arr_dim then
        (if i < length typed_src \<and> i < length result
         then ToFloat4Array_loop cvt typed_src arr_dim (i + 1) (result[i := cvt (typed_src ! i)])
         else None)
      else Some result)"
  by pat_completeness auto
termination
  by (relation "measure (\<lambda>(cvt, typed_src, arr_dim, i, result). arr_dim - i)") auto

declare ToFloat4Array_loop.simps [simp del]

datatype normalizer_fatal = unsupported_element_type Oid

text \<open>
  \<^verbatim>\<open>ToFloat4Array\<close> returns the pointer, and with it the memory as the call leaves it.
  \<open>None\<close> is undefined behaviour (the data area is not one of \<^verbatim>\<open>int32\<close> values, or is
  shorter than the element count), \<open>Inl\<close> the fatal report of \<^verbatim>\<open>elog(ERROR, ...)\<close>, which
  carries the element type.
\<close>

definition ToFloat4Array ::
  "(32 word \<Rightarrow> 'f4) \<Rightarrow> 'f4 \<Rightarrow> 'f4 block list \<Rightarrow> ArrayType
   \<Rightarrow> (normalizer_fatal + addr) option \<times> 'f4 block list" where
  "ToFloat4Array cvt junk heap arr =
    (let element_type = ARR_ELEMTYPE arr
     in if element_type = FLOAT4OID then (Some (Inr (ARR_DATA_PTR arr)), heap)
        else if element_type = INT4OID then
          (let arr_dim = ArrayGetNItems (ARR_NDIM arr) (ARR_DIMS arr);
               (result, heap') = palloc junk (arr_dim * 4) heap
           in if ARR_DATA_PTR arr < length heap then
                (case (heap ! ARR_DATA_PTR arr, heap' ! result) of
                   (int32_block typed_src, float4_block cells) \<Rightarrow>
                     (case ToFloat4Array_loop cvt typed_src arr_dim 0 cells of
                        Some cells' \<Rightarrow> (Some (Inr result), heap'[result := float4_block cells'])
                      | None \<Rightarrow> (None, heap'))
                 | _ \<Rightarrow> (None, heap'))
              else (None, heap'))
        else (Some (Inl (unsupported_element_type element_type)), heap))"

text \<open>
  An \<^verbatim>\<open>int4\<close> array whose data area holds one value for each of its elements.
\<close>

definition int4_array_at :: "'f4 block list \<Rightarrow> ArrayType \<Rightarrow> 32 word list \<Rightarrow> bool" where
  "int4_array_at heap arr src \<longleftrightarrow>
     ARR_ELEMTYPE arr = INT4OID \<and> ARR_DATA_PTR arr < length heap
     \<and> heap ! ARR_DATA_PTR arr = int32_block src
     \<and> length src = ArrayGetNItems (ARR_NDIM arr) (ARR_DIMS arr)"

text \<open>
  For the examples, a \<^verbatim>\<open>float4\<close> is the real number it stands for, and the conversion is
  exact (as it is on integers of magnitude up to \<open>2 ^ 24\<close>).
\<close>

definition example_cvt :: "32 word \<Rightarrow> real" where
  "example_cvt w = real_of_int (sint w)"

definition example_heap :: "real block list" where
  "example_heap = [int32_block [1, 2, 3], float4_block [1/2, 3/2], other_block [97, 98]]"

subsection \<open>Version Compatibility Gate\<close>

text \<open>
  C strings. A \<open>string\<close> stands for the bytes of a NUL-terminated string before its
  terminator; the byte read once the list is exhausted is the terminator. \<^verbatim>\<open>strlen\<close>
  stops at the first NUL byte, \<^verbatim>\<open>strncmp(s1, s2, n)\<close> compares at most \<open>n\<close> bytes as
  unsigned values and stops at the first difference or after a NUL in both.
\<close>

definition strlen :: "string \<Rightarrow> size_t" where
  "strlen s = of_nat (length (takeWhile (\<lambda>c. c \<noteq> CHR 0x00) s))"

definition byte_at :: "string \<Rightarrow> nat" where
  "byte_at s = (case s of [] \<Rightarrow> 0 | c # _ \<Rightarrow> of_char c)"

fun strncmp :: "string \<Rightarrow> string \<Rightarrow> nat \<Rightarrow> int" where
  "strncmp s1 s2 0 = 0"
| "strncmp s1 s2 (Suc n) =
     (let c1 = byte_at s1; c2 = byte_at s2
      in if c1 \<noteq> c2 then int c1 - int c2
         else if c1 = 0 then 0
         else strncmp (tl s1) (tl s2) n)"

text \<open>
  \<^verbatim>\<open>LDB_BINARY_VERSION\<close> is a macro of the generated header \<^verbatim>\<open>version.h\<close>, which is not
  among the sources at hand: it is a parameter of the model, a string literal, so that
  \<^verbatim>\<open>sizeof(LDB_BINARY_VERSION)\<close> counts its bytes and the terminator.
\<close>

definition sizeof_literal :: "string \<Rightarrow> size_t" where
  "sizeof_literal s = of_nat (length s + 1)"

text \<open>
  Lines 167 to 172. \<^verbatim>\<open>version_length\<close> is an \<^verbatim>\<open>int\<close>: \<^verbatim>\<open>strlen\<close>'s result and the
  \<^verbatim>\<open>sizeof\<close> are truncated into it, the test reads it as \<^verbatim>\<open>unsigned\<close> against the
  \<^verbatim>\<open>size_t\<close> of the \<^verbatim>\<open>sizeof\<close>, and \<^verbatim>\<open>strncmp\<close> takes it as a \<^verbatim>\<open>size_t\<close> again.
\<close>

definition version_length :: "string \<Rightarrow> string \<Rightarrow> c_int" where
  "version_length LDB_BINARY_VERSION version =
     (let version_length = (ucast (strlen version) :: c_int)
      in if sizeof_literal LDB_BINARY_VERSION \<ge> (ucast version_length :: size_t)
         then ucast (sizeof_literal LDB_BINARY_VERSION)
         else version_length)"

definition comparison :: "string \<Rightarrow> string \<Rightarrow> int" where
  "comparison LDB_BINARY_VERSION version =
     strncmp version LDB_BINARY_VERSION
       (unat (scast (version_length LDB_BINARY_VERSION version) :: size_t))"

text \<open>
  The comparison in the spec's words: the two strings compared over
  \<open>max (len queried) (len compiled)\<close> bytes.
\<close>

definition spec_comparison :: "string \<Rightarrow> string \<Rightarrow> int" where
  "spec_comparison compiled queried =
     strncmp queried compiled (max (length queried) (length compiled))"

text \<open>
  What the host answers during one call: whether a snapshot is active, the result codes of
  \<^verbatim>\<open>SPI_connect\<close> and \<^verbatim>\<open>SPI_execute\<close>, the row count \<^verbatim>\<open>SPI_processed\<close>, and the first
  column of the first row, as its null flag and its text.
\<close>

record host =
  ActiveSnapshotSet :: bool
  SPI_connect_result :: c_int
  SPI_execute_result :: c_int
  SPI_processed :: "64 word"
  isnull :: bool
  extversion :: string

definition SPI_OK_CONNECT :: c_int where
  "SPI_OK_CONNECT = 1"

definition SPI_OK_SELECT :: c_int where
  "SPI_OK_SELECT = 5"

text \<open>
  What a call does to the outside: the executor calls it makes and the lines it prints, in
  order. The process state is the two globals and this log.
\<close>

datatype event =
    SPI_connect_call
  | SPI_execute_call string
  | SPI_finish_call
  | elog_line elevel string

datatype version_fatal =
    could_not_connect
  | SPI_execute_returned c_int string
  | query_did_not_return_any_values
  | query_returned_null

record process =
  versions_match :: bool
  version_checked :: bool
  log :: "event list"

definition emit :: "event \<Rightarrow> process \<Rightarrow> process" where
  "emit e s = s\<lparr>log := log s @ [e]\<rparr>"

definition version_query :: string where
  "version_query =
     ''SELECT extversion FROM pg_extension WHERE extname = '' @ [CHR 0x27] @ ''lantern'' @ [CHR 0x27]"

definition mismatch_warning :: "string \<Rightarrow> string \<Rightarrow> string" where
  "mismatch_warning LDB_BINARY_VERSION version =
     ''LanternDB binary version ('' @ LDB_BINARY_VERSION
     @ '') does not match the version in SQL ('' @ version
     @ ''). This can cause errors as the two APIs may differ. Please run `ALTER EXTENSION lantern UPDATE` and reconnect before attempting to work with indices''"

definition VersionsMatch :: "string \<Rightarrow> host \<Rightarrow> process \<Rightarrow> (version_fatal + bool) \<times> process" where
  "VersionsMatch LDB_BINARY_VERSION h s =
    (if \<not> ActiveSnapshotSet h then
       (let s = s\<lparr>versions_match := False\<rparr>;
            s = s\<lparr>version_checked := False\<rparr>
        in (Inr True, s))
     else if version_checked s then (Inr (versions_match s), s)
     else
       (let s = emit SPI_connect_call s
        in if SPI_connect_result h \<noteq> SPI_OK_CONNECT then (Inl could_not_connect, s)
        else
          (let query = version_query;
               s = emit (SPI_execute_call query) s;
               spi_result = SPI_execute_result h
           in if spi_result \<noteq> SPI_OK_SELECT then (Inl (SPI_execute_returned spi_result query), s)
           else if SPI_processed h \<noteq> 1 then (Inl query_did_not_return_any_values, s)
           else if isnull h then (Inl query_returned_null, s)
           else
             (let version = extversion h;
                  s = (if comparison LDB_BINARY_VERSION version = 0
                       then s\<lparr>versions_match := True\<rparr> else s);
                  s = s\<lparr>version_checked := True\<rparr>;
                  s = emit SPI_finish_call s;
                  s = (if \<not> versions_match s
                       then emit (elog_line WARNING (mismatch_warning LDB_BINARY_VERSION version)) s
                       else s)
              in (Inr (versions_match s), s)))))"

text \<open>
  Successive calls in one process, each with the host's answers at that moment. A fatal
  report ends the statement that called the gate, not the process: the next call finds the
  state the failed one left.
\<close>

fun VersionsMatch_calls ::
  "string \<Rightarrow> host list \<Rightarrow> process \<Rightarrow> (version_fatal + bool) list \<times> process" where
  "VersionsMatch_calls LDB_BINARY_VERSION [] s = ([], s)"
| "VersionsMatch_calls LDB_BINARY_VERSION (h # hs) s =
     (let (r, s') = VersionsMatch LDB_BINARY_VERSION h s;
          (rs, s'') = VersionsMatch_calls LDB_BINARY_VERSION hs s'
      in (r # rs, s''))"

definition queries_issued :: "event list \<Rightarrow> nat" where
  "queries_issued evs = length (filter (\<lambda>e. case e of SPI_execute_call _ \<Rightarrow> True | _ \<Rightarrow> False) evs)"

text \<open>The process as it starts, and as the snapshot-absence rule resets it.\<close>

definition Unchecked :: "process \<Rightarrow> bool" where
  "Unchecked s \<longleftrightarrow> \<not> version_checked s \<and> \<not> versions_match s"

text \<open>A host that answers the version query as required, with the given text.\<close>

definition answering :: "string \<Rightarrow> host" where
  "answering v =
     \<lparr>ActiveSnapshotSet = True, SPI_connect_result = SPI_OK_CONNECT,
      SPI_execute_result = SPI_OK_SELECT, SPI_processed = 1, isnull = False, extversion = v\<rparr>"

definition initial_process :: process where
  "initial_process = \<lparr>versions_match = False, version_checked = False, log = []\<rparr>"


text \<open>
  Two processes that have already checked, a host without a snapshot, what counts as a
  deviation of the query, and the process after the connection and after the query.
\<close>

definition cached_mismatch :: process where
  "cached_mismatch = \<lparr>versions_match = False, version_checked = True, log = []\<rparr>"

definition cached_match :: process where
  "cached_match = \<lparr>versions_match = True, version_checked = True, log = []\<rparr>"

definition no_snapshot :: "host \<Rightarrow> host" where
  "no_snapshot h = h\<lparr>ActiveSnapshotSet := False\<rparr>"

definition deviation :: "host \<Rightarrow> bool" where
  "deviation h \<longleftrightarrow>
     SPI_connect_result h \<noteq> SPI_OK_CONNECT \<or> SPI_execute_result h \<noteq> SPI_OK_SELECT
     \<or> SPI_processed h \<noteq> 1 \<or> isnull h"

definition connected :: "process \<Rightarrow> process" where
  "connected s = emit SPI_connect_call s"

definition queried :: "process \<Rightarrow> process" where
  "queried s = emit (SPI_execute_call version_query) (emit SPI_connect_call s)"


text \<open>Three arrays over the example memory.\<close>

definition int4_example :: ArrayType where
  "int4_example = \<lparr>ARR_ELEMTYPE = INT4OID, ARR_DIMS = [3], ARR_DATA_PTR = 0\<rparr>"

definition float4_example :: ArrayType where
  "float4_example = \<lparr>ARR_ELEMTYPE = FLOAT4OID, ARR_DIMS = [2], ARR_DATA_PTR = 1\<rparr>"

definition text_example :: ArrayType where
  "text_example = \<lparr>ARR_ELEMTYPE = 25, ARR_DIMS = [2], ARR_DATA_PTR = 2\<rparr>"


text \<open>
  The \<^verbatim>\<open>int4\<close> array \<open>{1, NULL, 3}\<close>: three elements, and a data area of the two values
  that are not NULL (the host keeps no cell for a NULL element; which elements are NULL is
  in a bitmap of the array header, which the source does not read).
\<close>

definition null_example_heap :: "real block list" where
  "null_example_heap = [int32_block [1, 3]]"

definition int4_null_example :: ArrayType where
  "int4_null_example = \<lparr>ARR_ELEMTYPE = INT4OID, ARR_DIMS = [3], ARR_DATA_PTR = 0\<rparr>"

section \<open>Properties\<close>

subsection \<open>Words\<close>

lemma uint_scast_nonneg:
  fixes w :: c_int
  assumes "0 \<le> sint w"
  shows "uint (scast w :: size_t) = sint w"
proof -
  have "sint w < 2 ^ 31"
    using sint_lt [of w] by simp
  moreover have "(2::int) ^ 31 < 2 ^ 64"
    by simp
  ultimately have b: "sint w < 2 ^ 64"
    by (rule less_trans)
  have "uint (scast w :: size_t) = take_bit 64 (sint w)"
    unfolding scast_eq by (rule uint_word_of_int_eq [where 'a = 64, simplified])
  also have "\<dots> = sint w"
    using assms b by (rule take_bit_int_eq_self)
  finally show ?thesis .
qed

lemma unat_size_t_of_nat: "n < 2 ^ 64 \<Longrightarrow> unat (of_nat n :: size_t) = n"
  by (simp add: unat_of_nat)

lemma unat_int_of_size_t: "unat (ucast (w :: size_t) :: c_int) = unat w mod 2 ^ 32"
  by (simp add: unsigned_ucast_eq take_bit_eq_mod)

lemma unat_size_t_of_unsigned: "unat (ucast (w :: uint32) :: size_t) = unat w"
proof -
  have "unat w < 2 ^ 32"
    using unsigned_less [of w, where 'a = nat] by simp
  moreover have "(2::nat) ^ 32 < 2 ^ 64"
    by simp
  ultimately have "unat w < 2 ^ 64"
    by (rule less_trans)
  then show ?thesis
    by (simp add: unsigned_ucast_eq take_bit_nat_eq_self)
qed

lemma unat_size_t_of_int:
  fixes w :: c_int
  assumes "unat w < 2 ^ 31"
  shows "unat (scast w :: size_t) = unat w"
proof -
  have "int (unat w) < 2 ^ 31"
    using assms by (simp only: of_nat_less_numeral_power_cancel_iff)
  then have u: "uint w < 2 ^ 31"
    by simp
  have "sint w = signed_take_bit 31 (uint w)"
    by (simp add: sint_uint)
  also have "\<dots> = uint w"
  proof (rule signed_take_bit_int_eq_self)
    have "- (2 ^ 31) \<le> (0::int)"
      by simp
    also have "0 \<le> uint w"
      by simp
    finally show "- (2 ^ 31) \<le> uint w" .
    show "uint w < 2 ^ 31"
      by (rule u)
  qed
  finally have "(word_of_int (sint w) :: size_t) = word_of_int (uint w)"
    by (rule arg_cong)
  then have "(scast w :: size_t) = ucast w"
    unfolding scast_eq ucast_eq .
  then show ?thesis
    by (simp only: unat_size_t_of_unsigned)
qed

subsection \<open>Option Projector\<close>

text \<open>
  C9. For every valid index configuration, \<^verbatim>\<open>PopulateUsearchOpts\<close> leaves an options
  record whose connectivity is the index's M, whose expansion_add is its ef_construction,
  whose expansion_search is its ef, whose metric_kind is its declared metric, whose metric
  function pointer is unset (NULL) and whose quantization is f32.
\<close>

theorem PopulateUsearchOpts_fields:
  assumes "valid_config index"
  shows "uint (connectivity (PopulateUsearchOpts index opts)) = sint (ldb_HnswGetM index)
       \<and> uint (expansion_add (PopulateUsearchOpts index opts)) = sint (ldb_HnswGetEfConstruction index)
       \<and> uint (expansion_search (PopulateUsearchOpts index opts)) = sint (ldb_HnswGetEf index)
       \<and> metric_kind (PopulateUsearchOpts index opts) = ldb_HnswGetMetricKind index
       \<and> metric (PopulateUsearchOpts index opts) = None
       \<and> quantization (PopulateUsearchOpts index opts) = usearch_scalar_f32_k"
  using assms
  by (simp add: PopulateUsearchOpts_def valid_config_def ldb_HnswGetM_def
      ldb_HnswGetEfConstruction_def ldb_HnswGetEf_def uint_scast_nonneg)

text \<open>
  At the configuration \<open>example_index\<close> and the options record \<open>example_opts\<close>.
\<close>

theorem PopulateUsearchOpts_fields_witness:
  "valid_config example_index
   \<and> PopulateUsearchOpts example_index example_opts =
       \<lparr>metric_kind = usearch_metric_cos_k, metric = None,
        quantization = usearch_scalar_f32_k, dimensions = 3, connectivity = 16,
        expansion_add = 128, expansion_search = 64\<rparr>"
proof -
  have v: "valid_config example_index"
    by (simp add: valid_config_def example_index_def)
  note f = PopulateUsearchOpts_fields [OF v, of example_opts]
  have "uint (connectivity (PopulateUsearchOpts example_index example_opts)) = uint (16 :: size_t)"
    using f by (simp add: ldb_HnswGetM_def example_index_def)
  then have c: "connectivity (PopulateUsearchOpts example_index example_opts) = 16"
    by (simp only: word_uint_eq_iff)
  have "uint (expansion_add (PopulateUsearchOpts example_index example_opts)) = uint (128 :: size_t)"
    using f by (simp add: ldb_HnswGetEfConstruction_def example_index_def)
  then have a: "expansion_add (PopulateUsearchOpts example_index example_opts) = 128"
    by (simp only: word_uint_eq_iff)
  have "uint (expansion_search (PopulateUsearchOpts example_index example_opts)) = uint (64 :: size_t)"
    using f by (simp add: ldb_HnswGetEf_def example_index_def)
  then have s: "expansion_search (PopulateUsearchOpts example_index example_opts) = 64"
    by (simp only: word_uint_eq_iff)
  have m: "metric_kind (PopulateUsearchOpts example_index example_opts) = usearch_metric_cos_k"
    using f by (simp add: ldb_HnswGetMetricKind_def example_index_def)
  have d: "dimensions (PopulateUsearchOpts example_index example_opts) = 3"
    by (simp add: PopulateUsearchOpts_def example_opts_def)
  have "PopulateUsearchOpts example_index example_opts =
       \<lparr>metric_kind = usearch_metric_cos_k, metric = None,
        quantization = usearch_scalar_f32_k, dimensions = 3, connectivity = 16,
        expansion_add = 128, expansion_search = 64\<rparr>"
    using f c a s m d by (intro usearch_init_options_t.equality) simp_all
  with v show ?thesis
    by simp
qed

text \<open>
  C10. \<^verbatim>\<open>PopulateUsearchOpts\<close> writes the six fields connectivity, expansion_add,
  expansion_search, metric_kind, metric and quantization and nothing else: dimensions, and
  every field beyond the seven named ones, keeps the value it had before the call, and the
  six written fields do not depend on what the record held before.
\<close>

theorem PopulateUsearchOpts_frame:
  "dimensions (PopulateUsearchOpts index opts) = dimensions opts
   \<and> usearch_init_options_t.more (PopulateUsearchOpts index opts) = usearch_init_options_t.more opts
   \<and> PopulateUsearchOpts index opts =
       (PopulateUsearchOpts index opts')
         \<lparr>dimensions := dimensions opts, usearch_init_options_t.more := usearch_init_options_t.more opts\<rparr>"
  by (simp add: PopulateUsearchOpts_def)

subsection \<open>Node Label Codec\<close>

text \<open>
  Eight bytes assembled into a label and taken apart again are the same eight bytes, and
  an identifier is determined by its six bytes.
\<close>

lemma upt_8: "[0..<8] = [0, 1, 2, 3, 4, 5, 6, 7]"
  by (simp add: upt_rec)

lemma bytes_of_label_of_bytes:
  "bytes_of_label (label_of_bytes [b0, b1, b2, b3, b4, b5, b6, b7]) = [b0, b1, b2, b3, b4, b5, b6, b7]"
  unfolding bytes_of_label_def upt_8 list.map label_of_bytes.simps
  by (intro conjI list.inject [THEN iffD2] refl; rule bit_eqI)
     (auto simp: bit_simps dest: bit_imp_le_length)

lemma bytes_of_uint16_inject: "bytes_of_uint16 v = bytes_of_uint16 w \<longleftrightarrow> v = w"
proof
  assume "bytes_of_uint16 v = bytes_of_uint16 w"
  then have lo: "(ucast v :: byte) = ucast w"
    and hi: "(ucast (drop_bit 8 v) :: byte) = ucast (drop_bit 8 w)"
    by (simp_all add: bytes_of_uint16_def)
  show "v = w"
  proof (rule bit_eqI)
    fix n
    assume "possible_bit TYPE(uint16) n"
    show "bit v n = bit w n"
    proof (cases "n < 8")
      case True
      have "bit (ucast v :: byte) n = bit (ucast w :: byte) n"
        by (simp only: lo)
      with True show ?thesis
        by (simp add: bit_simps)
    next
      case False
      then have "bit (ucast (drop_bit 8 v) :: byte) (n - 8) = bit (ucast (drop_bit 8 w) :: byte) (n - 8)"
        by (simp only: hi)
      with False show ?thesis
        by (auto simp: bit_simps dest: bit_imp_le_length)
    qed
  qed
qed simp

lemma bytes_of_ItemPointer_inject:
  "bytes_of_ItemPointer p = bytes_of_ItemPointer q \<longleftrightarrow> p = q"
proof
  assume "bytes_of_ItemPointer p = bytes_of_ItemPointer q"
  then have "bytes_of_uint16 (bi_hi p) = bytes_of_uint16 (bi_hi q)"
    and "bytes_of_uint16 (bi_lo p) = bytes_of_uint16 (bi_lo q)"
    and "bytes_of_uint16 (ip_posid p) = bytes_of_uint16 (ip_posid q)"
    by (simp_all add: bytes_of_ItemPointer_def bytes_of_uint16_def)
  then show "p = q"
    by (simp add: bytes_of_uint16_inject)
qed simp

lemma GetUsearchLabel_bytes:
  "bytes_of_label (GetUsearchLabel itemPtr) = bytes_of_ItemPointer itemPtr @ [0, 0]"
proof -
  have mem: "memcpy (bytes_of_label 0) (bytes_of_ItemPointer itemPtr) 6
      = bytes_of_ItemPointer itemPtr @ [0, 0]"
    by (simp add: memcpy_def bytes_of_ItemPointer_def bytes_of_uint16_def bytes_of_label_def upt_8)
  have bytes: "bytes_of_ItemPointer itemPtr @ [0, 0] =
      [ucast (bi_hi itemPtr), ucast (drop_bit 8 (bi_hi itemPtr)),
       ucast (bi_lo itemPtr), ucast (drop_bit 8 (bi_lo itemPtr)),
       ucast (ip_posid itemPtr), ucast (drop_bit 8 (ip_posid itemPtr)), 0, 0]"
    by (simp add: bytes_of_ItemPointer_def bytes_of_uint16_def)
  have "GetUsearchLabel itemPtr = label_of_bytes (bytes_of_ItemPointer itemPtr @ [0, 0])"
    unfolding GetUsearchLabel_def Let_def mem ..
  then show ?thesis
    unfolding bytes by (simp only: bytes_of_label_of_bytes)
qed

text \<open>
  C4. \<^verbatim>\<open>GetUsearchLabel\<close> is injective: two row identifiers have the same label only if
  they are the same identifier. The eight bytes of the label are the six bytes of the
  identifier, in the same order from the low-order end, followed by two zero bytes.
\<close>

theorem GetUsearchLabel_injective_verbatim:
  "(GetUsearchLabel p = GetUsearchLabel q \<longleftrightarrow> p = q)
   \<and> length (bytes_of_ItemPointer p) = 6
   \<and> bytes_of_label (GetUsearchLabel p) = bytes_of_ItemPointer p @ [0, 0]"
proof -
  have "p = q" if "GetUsearchLabel p = GetUsearchLabel q"
  proof -
    from that have "bytes_of_label (GetUsearchLabel p) = bytes_of_label (GetUsearchLabel q)"
      by simp
    then have "bytes_of_ItemPointer p = bytes_of_ItemPointer q"
      by (simp add: GetUsearchLabel_bytes)
    then show ?thesis
      by (simp add: bytes_of_ItemPointer_inject)
  qed
  then have "GetUsearchLabel p = GetUsearchLabel q \<longleftrightarrow> p = q"
    by blast
  moreover have "length (bytes_of_ItemPointer p) = 6"
    by (simp add: bytes_of_ItemPointer_def bytes_of_uint16_def)
  ultimately show ?thesis
    by (simp add: GetUsearchLabel_bytes)
qed

text \<open>
  At the identifiers (block 1, offset 1) and (block 65536, offset 1), which differ in the
  halves of the block number only: the labels differ, and the label of the first is
  \<open>0x000100010000\<close>.
\<close>

theorem GetUsearchLabel_injective_verbatim_witness:
  "GetUsearchLabel \<lparr>bi_hi = 0, bi_lo = 1, ip_posid = 1\<rparr>
     \<noteq> GetUsearchLabel \<lparr>bi_hi = 1, bi_lo = 0, ip_posid = 1\<rparr>
   \<and> bytes_of_label (GetUsearchLabel \<lparr>bi_hi = 0, bi_lo = 1, ip_posid = 1\<rparr>) = [0, 0, 1, 0, 1, 0, 0, 0]"
  using GetUsearchLabel_injective_verbatim
    [of "\<lparr>bi_hi = 0, bi_lo = 1, ip_posid = 1\<rparr>" "\<lparr>bi_hi = 1, bi_lo = 0, ip_posid = 1\<rparr>"]
  by (simp add: bytes_of_ItemPointer_def bytes_of_uint16_def)


subsection \<open>Version Compatibility Gate\<close>

text \<open>
  On strings without a NUL byte, \<^verbatim>\<open>strncmp\<close> with a bound that covers both strings is 0
  exactly when they are equal, and its value does not depend on the bound.
\<close>

lemma byte_at_Cons_pos: "c \<noteq> CHR 0x00 \<Longrightarrow> 0 < byte_at (c # s)"
proof -
  assume "c \<noteq> CHR 0x00"
  then have "of_char c \<noteq> (of_char (CHR 0x00) :: nat)"
    by (simp only: of_char_eq_iff not_False_eq_True)
  then show ?thesis
    by (simp add: byte_at_def)
qed

lemma strncmp_eq_0_iff:
  assumes "CHR 0x00 \<notin> set s1" and "CHR 0x00 \<notin> set s2"
    and "length s1 \<le> n" and "length s2 \<le> n"
  shows "strncmp s1 s2 n = 0 \<longleftrightarrow> s1 = s2"
  using assms
proof (induction n arbitrary: s1 s2)
  case 0
  then show ?case by simp
next
  case (Suc n)
  show ?case
  proof (cases s1)
    case Nil
    show ?thesis
    proof (cases s2)
      case Nil
      with \<open>s1 = []\<close> show ?thesis by (simp add: byte_at_def)
    next
      case (Cons d t2)
      with Suc.prems have "0 < byte_at (d # t2)"
        by (intro byte_at_Cons_pos) auto
      with Cons \<open>s1 = []\<close> show ?thesis
        by (simp add: byte_at_def)
    qed
  next
    case (Cons c t1)
    with Suc.prems have c: "0 < byte_at (c # t1)"
      by (intro byte_at_Cons_pos) auto
    show ?thesis
    proof (cases s2)
      case Nil
      with Cons c show ?thesis
        by (simp add: byte_at_def)
    next
      case (Cons d t2)
      from Suc.prems \<open>s1 = c # t1\<close> Cons
      have "strncmp t1 t2 n = 0 \<longleftrightarrow> t1 = t2"
        by (intro Suc.IH) auto
      with c \<open>s1 = c # t1\<close> Cons show ?thesis
        by (auto simp: byte_at_def Let_def)
    qed
  qed
qed

lemma strlen_NUL_free:
  assumes "CHR 0x00 \<notin> set s"
  shows "strlen s = of_nat (length s)"
proof -
  have tw: "takeWhile (\<lambda>c. c \<noteq> CHR 0x00) s = s"
    using assms by auto
  show ?thesis
    unfolding strlen_def tw ..
qed

lemma version_length_value:
  assumes nul: "CHR 0x00 \<notin> set version"
    and v: "length version < 2 ^ 31"
    and c: "length LDB_BINARY_VERSION + 1 < 2 ^ 31"
  shows "unat (scast (version_length LDB_BINARY_VERSION version) :: size_t)
       = max (length version) (length LDB_BINARY_VERSION + 1)"
proof -
  let ?v = "length version" and ?c = "length LDB_BINARY_VERSION + 1"
  have v64: "?v < 2 ^ 64" and c64: "?c < 2 ^ 64" and v32: "?v < 2 ^ 32" and c32: "?c < 2 ^ 32"
    using v c by simp_all
  have len: "unat (strlen version) = ?v"
    using v64 by (simp only: strlen_NUL_free [OF nul] unat_size_t_of_nat)
  have sz: "unat (sizeof_literal LDB_BINARY_VERSION) = ?c"
    using c64 by (simp only: sizeof_literal_def unat_size_t_of_nat)
  have vl0: "unat (ucast (strlen version) :: c_int) = ?v"
    using v32 by (simp only: unat_int_of_size_t len mod_less)
  have szi: "unat (ucast (sizeof_literal LDB_BINARY_VERSION) :: c_int) = ?c"
    using c32 by (simp only: unat_int_of_size_t sz mod_less)
  have test: "sizeof_literal LDB_BINARY_VERSION \<ge> (ucast (ucast (strlen version) :: c_int) :: size_t)
      \<longleftrightarrow> ?v \<le> ?c"
    by (simp only: word_le_nat_alt unat_size_t_of_unsigned vl0 sz)
  show ?thesis
  proof (cases "?v \<le> ?c")
    case True
    then have "version_length LDB_BINARY_VERSION version = ucast (sizeof_literal LDB_BINARY_VERSION)"
      unfolding version_length_def Let_def by (simp only: test if_True)
    moreover have "unat (scast (ucast (sizeof_literal LDB_BINARY_VERSION) :: c_int) :: size_t) = ?c"
      using c by (simp only: unat_size_t_of_int szi)
    ultimately show ?thesis
      using True by (simp only: max_absorb2)
  next
    case False
    then have "version_length LDB_BINARY_VERSION version = ucast (strlen version)"
      unfolding version_length_def Let_def by (simp only: test if_False)
    moreover have "unat (scast (ucast (strlen version) :: c_int) :: size_t) = ?v"
      using v by (simp only: unat_size_t_of_int vl0)
    ultimately show ?thesis
      using False by (simp only: max_absorb1 not_le less_imp_le)
  qed
qed

lemma comparison_eq_0_iff:
  assumes "CHR 0x00 \<notin> set version" and "CHR 0x00 \<notin> set LDB_BINARY_VERSION"
    and "length version < 2 ^ 31" and "length LDB_BINARY_VERSION + 1 < 2 ^ 31"
  shows "comparison LDB_BINARY_VERSION version = 0 \<longleftrightarrow> version = LDB_BINARY_VERSION"
  unfolding comparison_def version_length_value [OF assms(1,3,4)]
  using assms(1,2) by (intro strncmp_eq_0_iff) simp_all

lemma spec_comparison_eq_0_iff:
  assumes "CHR 0x00 \<notin> set version" and "CHR 0x00 \<notin> set LDB_BINARY_VERSION"
  shows "spec_comparison LDB_BINARY_VERSION version = 0 \<longleftrightarrow> version = LDB_BINARY_VERSION"
  unfolding spec_comparison_def
  using assms by (intro strncmp_eq_0_iff) simp_all

lemma strncmp_beyond:
  assumes "CHR 0x00 \<notin> set s1" and "CHR 0x00 \<notin> set s2"
    and "length s1 \<le> n" and "length s2 \<le> n"
  shows "strncmp s1 s2 n = strncmp s1 s2 (max (length s1) (length s2))"
  using assms
proof (induction n arbitrary: s1 s2)
  case 0
  then show ?case by simp
next
  case (Suc n)
  show ?case
  proof (cases s1)
    case Nil
    show ?thesis
    proof (cases s2)
      case Nil
      with \<open>s1 = []\<close> show ?thesis by (simp add: byte_at_def)
    next
      case (Cons d t2)
      with Suc.prems have "0 < byte_at (d # t2)"
        by (intro byte_at_Cons_pos) auto
      with Cons \<open>s1 = []\<close> show ?thesis
        by (simp add: byte_at_def)
    qed
  next
    case (Cons c t1)
    with Suc.prems have c: "0 < byte_at (c # t1)"
      by (intro byte_at_Cons_pos) auto
    show ?thesis
    proof (cases s2)
      case Nil
      with Cons c show ?thesis
        by (simp add: byte_at_def)
    next
      case (Cons d t2)
      from Suc.prems \<open>s1 = c # t1\<close> Cons
      have "strncmp t1 t2 n = strncmp t1 t2 (max (length t1) (length t2))"
        by (intro Suc.IH) auto
      with c \<open>s1 = c # t1\<close> Cons show ?thesis
        by (simp add: byte_at_def Let_def)
    qed
  qed
qed

lemma comparison_eq_spec_comparison:
  assumes "CHR 0x00 \<notin> set version" and "CHR 0x00 \<notin> set LDB_BINARY_VERSION"
    and "length version < 2 ^ 31" and "length LDB_BINARY_VERSION + 1 < 2 ^ 31"
  shows "comparison LDB_BINARY_VERSION version = spec_comparison LDB_BINARY_VERSION version"
  unfolding comparison_def spec_comparison_def version_length_value [OF assms(1,3,4)]
  using assms(1,2) by (intro strncmp_beyond) simp_all

lemma sublist_second_hole: "sublist v (a @ l @ b @ v @ c)"
proof -
  have "a @ l @ b @ v @ c = (a @ l @ b) @ v @ c"
    by simp
  then show ?thesis
    by (simp only: sublist_appendI)
qed

lemma sublist_mismatch_warning:
  "sublist LDB_BINARY_VERSION (mismatch_warning LDB_BINARY_VERSION version)
   \<and> sublist version (mismatch_warning LDB_BINARY_VERSION version)"
  unfolding mismatch_warning_def
  by (intro conjI sublist_appendI sublist_second_hole)

text \<open>
  No call leaves \<^verbatim>\<open>versions_match\<close> set while \<^verbatim>\<open>version_checked\<close> is clear: a process that
  has not checked is Unchecked, from its start on.
\<close>

lemma VersionsMatch_keeps_unchecked:
  assumes "versions_match s \<longrightarrow> version_checked s"
  shows "versions_match (snd (VersionsMatch LDB_BINARY_VERSION h s))
       \<longrightarrow> version_checked (snd (VersionsMatch LDB_BINARY_VERSION h s))"
  using assms by (auto simp: VersionsMatch_def Let_def emit_def)

lemma VersionsMatch_calls_keep_unchecked:
  assumes "versions_match s \<longrightarrow> version_checked s"
  shows "versions_match (snd (VersionsMatch_calls LDB_BINARY_VERSION hs s))
       \<longrightarrow> version_checked (snd (VersionsMatch_calls LDB_BINARY_VERSION hs s))"
  using assms
proof (induction hs arbitrary: s)
  case Nil
  then show ?case by simp
next
  case (Cons h hs)
  have "versions_match (snd (VersionsMatch LDB_BINARY_VERSION h s))
      \<longrightarrow> version_checked (snd (VersionsMatch LDB_BINARY_VERSION h s))"
    using Cons.prems by (rule VersionsMatch_keeps_unchecked)
  then have "versions_match (snd (VersionsMatch_calls LDB_BINARY_VERSION hs (snd (VersionsMatch LDB_BINARY_VERSION h s))))
      \<longrightarrow> version_checked (snd (VersionsMatch_calls LDB_BINARY_VERSION hs (snd (VersionsMatch LDB_BINARY_VERSION h s))))"
    by (rule Cons.IH)
  then show ?case
    by (simp add: split_beta)
qed

lemma VersionsMatch_checks:
  assumes "ActiveSnapshotSet h" and "\<not> version_checked s"
    and "SPI_connect_result h = SPI_OK_CONNECT" and "SPI_execute_result h = SPI_OK_SELECT"
    and "SPI_processed h = 1" and "\<not> isnull h"
  shows "VersionsMatch LDB_BINARY_VERSION h s =
    (if comparison LDB_BINARY_VERSION (extversion h) = 0
     then (Inr True, s\<lparr>versions_match := True, version_checked := True,
             log := log s @ [SPI_connect_call, SPI_execute_call version_query, SPI_finish_call]\<rparr>)
     else (Inr (versions_match s),
           s\<lparr>version_checked := True,
             log := log s @ [SPI_connect_call, SPI_execute_call version_query, SPI_finish_call]
               @ (if versions_match s then []
                  else [elog_line WARNING (mismatch_warning LDB_BINARY_VERSION (extversion h))])\<rparr>))"
  using assms by (simp add: VersionsMatch_def Let_def emit_def)

text \<open>
  C1. When the gate performs its check (Unchecked process, snapshot active, the query
  answered with one non-null row), the outcome of the source's comparison is that of a
  byte-for-byte comparison over \<open>max (len queried) (len compiled)\<close> bytes: the gate
  returns whether the two strings are identical, so a queried value that is a strict
  prefix of the compiled version is never a match, identical strings are a match, and on a
  mismatch the last line printed is a warning that contains both version strings. The
  strings hold no NUL byte and are shorter than \<open>2 ^ 31\<close> bytes.
\<close>

theorem VersionsMatch_comparison:
  assumes "Unchecked s"
    and "ActiveSnapshotSet h" and "SPI_connect_result h = SPI_OK_CONNECT"
    and "SPI_execute_result h = SPI_OK_SELECT" and "SPI_processed h = 1" and "\<not> isnull h"
    and "CHR 0x00 \<notin> set (extversion h)" and "CHR 0x00 \<notin> set LDB_BINARY_VERSION"
    and "length (extversion h) < 2 ^ 31" and "length LDB_BINARY_VERSION + 1 < 2 ^ 31"
  shows "comparison LDB_BINARY_VERSION (extversion h) = spec_comparison LDB_BINARY_VERSION (extversion h)
       \<and> fst (VersionsMatch LDB_BINARY_VERSION h s) = Inr (extversion h = LDB_BINARY_VERSION)
       \<and> (strict_prefix (extversion h) LDB_BINARY_VERSION
            \<longrightarrow> fst (VersionsMatch LDB_BINARY_VERSION h s) = Inr False)
       \<and> versions_match (snd (VersionsMatch LDB_BINARY_VERSION h s)) = (extversion h = LDB_BINARY_VERSION)
       \<and> version_checked (snd (VersionsMatch LDB_BINARY_VERSION h s))
       \<and> log (snd (VersionsMatch LDB_BINARY_VERSION h s)) =
           log s @ [SPI_connect_call, SPI_execute_call version_query, SPI_finish_call]
             @ (if extversion h = LDB_BINARY_VERSION then []
                else [elog_line WARNING (mismatch_warning LDB_BINARY_VERSION (extversion h))])
       \<and> sublist LDB_BINARY_VERSION (mismatch_warning LDB_BINARY_VERSION (extversion h))
       \<and> sublist (extversion h) (mismatch_warning LDB_BINARY_VERSION (extversion h))"
proof -
  have c: "comparison LDB_BINARY_VERSION (extversion h) = 0 \<longleftrightarrow> extversion h = LDB_BINARY_VERSION"
    using assms(7-10) by (rule comparison_eq_0_iff)
  have sc: "comparison LDB_BINARY_VERSION (extversion h) = spec_comparison LDB_BINARY_VERSION (extversion h)"
    using assms(7-10) by (rule comparison_eq_spec_comparison)
  have u: "\<not> version_checked s" "\<not> versions_match s"
    using assms(1) by (simp_all add: Unchecked_def)
  note vm = VersionsMatch_checks [OF assms(2) u(1) assms(3-6), of LDB_BINARY_VERSION]
  have "strict_prefix (extversion h) LDB_BINARY_VERSION \<longrightarrow> extversion h \<noteq> LDB_BINARY_VERSION"
    by auto
  then have "fst (VersionsMatch LDB_BINARY_VERSION h s) = Inr (extversion h = LDB_BINARY_VERSION)
       \<and> (strict_prefix (extversion h) LDB_BINARY_VERSION
            \<longrightarrow> fst (VersionsMatch LDB_BINARY_VERSION h s) = Inr False)
       \<and> versions_match (snd (VersionsMatch LDB_BINARY_VERSION h s)) = (extversion h = LDB_BINARY_VERSION)
       \<and> version_checked (snd (VersionsMatch LDB_BINARY_VERSION h s))
       \<and> log (snd (VersionsMatch LDB_BINARY_VERSION h s)) =
           log s @ [SPI_connect_call, SPI_execute_call version_query, SPI_finish_call]
             @ (if extversion h = LDB_BINARY_VERSION then []
                else [elog_line WARNING (mismatch_warning LDB_BINARY_VERSION (extversion h))])
       \<and> sublist LDB_BINARY_VERSION (mismatch_warning LDB_BINARY_VERSION (extversion h))
       \<and> sublist (extversion h) (mismatch_warning LDB_BINARY_VERSION (extversion h))"
    using sublist_mismatch_warning [of LDB_BINARY_VERSION "extversion h"]
    by (simp add: vm c u)
  with sc show ?thesis
    by (rule conjI)
qed

text \<open>
  At compiled "0.1.2" with queried "0.1" (a strict prefix), and at compiled "1.0.0" with
  queried "1.0.0".
\<close>

theorem VersionsMatch_comparison_witness:
  "fst (VersionsMatch ''0.1.2'' (answering ''0.1'') initial_process) = Inr False
   \<and> log (snd (VersionsMatch ''0.1.2'' (answering ''0.1'') initial_process)) =
       [SPI_connect_call, SPI_execute_call version_query, SPI_finish_call,
        elog_line WARNING (mismatch_warning ''0.1.2'' ''0.1'')]
   \<and> fst (VersionsMatch ''1.0.0'' (answering ''1.0.0'') initial_process) = Inr True
   \<and> log (snd (VersionsMatch ''1.0.0'' (answering ''1.0.0'') initial_process)) =
       [SPI_connect_call, SPI_execute_call version_query, SPI_finish_call]"
  using VersionsMatch_comparison [of initial_process "answering ''0.1''" "''0.1.2''"]
    VersionsMatch_comparison [of initial_process "answering ''1.0.0''" "''1.0.0''"]
  by (simp add: Unchecked_def initial_process_def answering_def)

text \<open>
  C2. A call made while no snapshot is active returns true whatever the process had cached
  and whatever the host would answer, resets the two globals to false (Unchecked), and
  calls and prints nothing.
\<close>

theorem VersionsMatch_soft_pass:
  assumes "\<not> ActiveSnapshotSet h"
  shows "fst (VersionsMatch LDB_BINARY_VERSION h s) = Inr True
       \<and> snd (VersionsMatch LDB_BINARY_VERSION h s) = s\<lparr>versions_match := False, version_checked := False\<rparr>
       \<and> Unchecked (snd (VersionsMatch LDB_BINARY_VERSION h s))
       \<and> log (snd (VersionsMatch LDB_BINARY_VERSION h s)) = log s"
  using assms by (simp add: VersionsMatch_def Let_def Unchecked_def)

text \<open>
  At a process with a cached mismatch, and a schema version that differs from the binary's.
\<close>

theorem VersionsMatch_soft_pass_witness:
  "\<not> ActiveSnapshotSet (no_snapshot (answering ''0.0.1''))
   \<and> VersionsMatch ''0.1.2'' (no_snapshot (answering ''0.0.1'')) cached_mismatch
       = (Inr True, initial_process)"
  using VersionsMatch_soft_pass [of "no_snapshot (answering ''0.0.1'')" "''0.1.2''" cached_mismatch]
  by (simp add: no_snapshot_def answering_def cached_mismatch_def initial_process_def prod_eq_iff)

lemma VersionsMatch_cached:
  assumes "version_checked s" and "ActiveSnapshotSet h"
  shows "VersionsMatch LDB_BINARY_VERSION h s = (Inr (versions_match s), s)"
  using assms by (simp add: VersionsMatch_def)

text \<open>
  C3, as amended. Once the process is Checked, every later call made with a snapshot
  active returns the cached boolean, leaves the process as it is, and issues no query, as
  long as no call without a snapshot comes in between.
\<close>

theorem VersionsMatch_idempotent:
  assumes "version_checked s" and "\<forall>h \<in> set hs. ActiveSnapshotSet h"
  shows "VersionsMatch_calls LDB_BINARY_VERSION hs s = (replicate (length hs) (Inr (versions_match s)), s)
       \<and> queries_issued (log (snd (VersionsMatch_calls LDB_BINARY_VERSION hs s))) = queries_issued (log s)"
proof -
  have "VersionsMatch_calls LDB_BINARY_VERSION hs s = (replicate (length hs) (Inr (versions_match s)), s)"
    using assms(2)
  proof (induction hs)
    case Nil
    show ?case by simp
  next
    case (Cons h hs)
    then have "VersionsMatch LDB_BINARY_VERSION h s = (Inr (versions_match s), s)"
      using assms(1) by (intro VersionsMatch_cached) simp_all
    with Cons show ?case
      by simp
  qed
  then show ?thesis
    by simp
qed

text \<open>
  Three calls after a cached mismatch, one after a cached match, the host answering with
  versions that would compare otherwise.
\<close>

theorem VersionsMatch_idempotent_witness:
  "VersionsMatch_calls ''0.1.2'' [answering ''0.1.2'', answering ''0.1'', answering ''0.1.2''] cached_mismatch
     = ([Inr False, Inr False, Inr False], cached_mismatch)
   \<and> VersionsMatch_calls ''0.1.2'' [answering ''0.1''] cached_match = ([Inr True], cached_match)"
  using VersionsMatch_idempotent
      [of cached_mismatch "[answering ''0.1.2'', answering ''0.1'', answering ''0.1.2'']" "''0.1.2''"]
    VersionsMatch_idempotent [of cached_match "[answering ''0.1'']" "''0.1.2''"]
  by (simp add: cached_mismatch_def cached_match_def answering_def)

text \<open>
  C3, as stated, fails: a call without a snapshot resets a Checked process, and the call
  with a snapshot that follows checks again. From a cached match, with binary version
  "0.1.2" and schema version "0.1", it issues one query and returns false.
\<close>

theorem VersionsMatch_requeries_after_reset:
  "version_checked cached_match \<and> versions_match cached_match
   \<and> ActiveSnapshotSet (answering ''0.1'')
   \<and> fst (VersionsMatch_calls ''0.1.2'' [no_snapshot (answering ''0.1''), answering ''0.1''] cached_match)
       = [Inr True, Inr False]
   \<and> queries_issued (log cached_match) = 0
   \<and> queries_issued (log (snd (VersionsMatch_calls ''0.1.2''
         [no_snapshot (answering ''0.1''), answering ''0.1''] cached_match))) = 1"
  by code_simp

lemma queries_issued_append: "queries_issued (xs @ ys) = queries_issued xs + queries_issued ys"
  by (simp add: queries_issued_def)

text \<open>
  C8. A check (snapshot active, process not Checked) connects once and, when the connection
  succeeds, issues the version query exactly once. It ends in a fatal report exactly when
  the host deviates: a failed connection, a result code other than a select, a row count
  other than one, or a null value. The report is raised where the deviation is detected:
  nothing is called or printed after it, and the two globals are left as they were.
\<close>

theorem VersionsMatch_strict:
  assumes "ActiveSnapshotSet h" and "\<not> version_checked s"
  shows "queries_issued (log (snd (VersionsMatch LDB_BINARY_VERSION h s)))
           = queries_issued (log s) + (if SPI_connect_result h = SPI_OK_CONNECT then 1 else 0)
       \<and> (deviation h \<longleftrightarrow> (\<exists>e. fst (VersionsMatch LDB_BINARY_VERSION h s) = Inl e))
       \<and> (SPI_connect_result h \<noteq> SPI_OK_CONNECT \<longrightarrow>
            VersionsMatch LDB_BINARY_VERSION h s = (Inl could_not_connect, connected s))
       \<and> (SPI_connect_result h = SPI_OK_CONNECT \<and> SPI_execute_result h \<noteq> SPI_OK_SELECT \<longrightarrow>
            VersionsMatch LDB_BINARY_VERSION h s
              = (Inl (SPI_execute_returned (SPI_execute_result h) version_query), queried s))
       \<and> (SPI_connect_result h = SPI_OK_CONNECT \<and> SPI_execute_result h = SPI_OK_SELECT
            \<and> SPI_processed h \<noteq> 1 \<longrightarrow>
            VersionsMatch LDB_BINARY_VERSION h s = (Inl query_did_not_return_any_values, queried s))
       \<and> (SPI_connect_result h = SPI_OK_CONNECT \<and> SPI_execute_result h = SPI_OK_SELECT
            \<and> SPI_processed h = 1 \<and> isnull h \<longrightarrow>
            VersionsMatch LDB_BINARY_VERSION h s = (Inl query_returned_null, queried s))"
  using assms
  by (simp add: VersionsMatch_def Let_def emit_def deviation_def connected_def queried_def
      queries_issued_append) (simp add: queries_issued_def)

text \<open>At a host that returns two rows, and at one that refuses the connection.\<close>

theorem VersionsMatch_strict_witness:
  "VersionsMatch ''0.1.2'' ((answering ''0.1.2'')\<lparr>SPI_processed := 2\<rparr>) initial_process
     = (Inl query_did_not_return_any_values,
        initial_process\<lparr>log := [SPI_connect_call, SPI_execute_call version_query]\<rparr>)
   \<and> VersionsMatch ''0.1.2'' ((answering ''0.1.2'')\<lparr>SPI_connect_result := 0\<rparr>) initial_process
     = (Inl could_not_connect, initial_process\<lparr>log := [SPI_connect_call]\<rparr>)"
  using VersionsMatch_strict [of "(answering ''0.1.2'')\<lparr>SPI_processed := 2\<rparr>" initial_process "''0.1.2''"]
    VersionsMatch_strict [of "(answering ''0.1.2'')\<lparr>SPI_connect_result := 0\<rparr>" initial_process "''0.1.2''"]
  by (simp add: answering_def initial_process_def queried_def connected_def emit_def
      SPI_OK_CONNECT_def SPI_OK_SELECT_def)

subsection \<open>Memory Budget Estimator\<close>

text \<open>
  The rounded mean layer count in closed form. \<open>1 / ln M + 1\<close> rounds to 2 exactly when
  \<open>ln M < 2\<close>, and \<open>7 < exp 2 < 8\<close>.
\<close>

lemma exp_2_gt_7: "(7::real) < exp 2"
proof -
  have "(1 + 1/4 + (1/4)\<^sup>2 / 2 :: real) \<le> exp (1/4)"
    by (rule exp_lower_Taylor_quadratic) simp
  then have "(41/32 :: real) \<le> exp (1/4)"
    by (simp add: power2_eq_square)
  then have "(41/32 :: real) ^ 8 \<le> exp (1/4) ^ 8"
    by (rule power_mono) simp
  moreover have "exp (1/4 :: real) ^ 8 = exp 2"
    using exp_of_nat_mult [of 8 "1/4 :: real"] by simp
  moreover have "(7::real) < (41/32) ^ 8"
    by (simp add: power_divide)
  ultimately show ?thesis
    by linarith
qed

lemma exp_2_lt_8: "exp 2 < (8::real)"
proof -
  have "(1 + (- (1/16)) :: real) \<le> exp (- (1/16))"
    by (rule exp_ge_add_one_self)
  then have "(15/16 :: real) \<le> exp (- (1/16))"
    by simp
  then have "(15/16 :: real) ^ 32 \<le> exp (- (1/16)) ^ 32"
    by (rule power_mono) simp
  moreover have "exp (- (1/16) :: real) ^ 32 = exp (- 2)"
    using exp_of_nat_mult [of 32 "- (1/16) :: real"] by simp
  moreover have "(1/8 :: real) < (15/16) ^ 32"
    by (simp add: power_divide)
  ultimately have "(1/8 :: real) < exp (- 2)"
    by linarith
  then have "1 / 8 < 1 / exp (2::real)"
    by (simp add: exp_minus inverse_eq_divide)
  then show ?thesis
    by (simp add: field_simps)
qed

lemma ln_7_lt_2: "ln (7::real) < 2"
proof -
  have "ln (7::real) < ln (exp 2)"
    using exp_2_gt_7 by (intro ln_strict_mono) simp_all
  then show ?thesis by simp
qed

lemma ln_8_gt_2: "2 < ln (8::real)"
proof -
  have "ln (exp 2) < ln (8::real)"
    using exp_2_lt_8 by (intro ln_strict_mono) simp_all
  then show ?thesis by simp
qed

lemma ln_2_gt_two_thirds: "2 / 3 < ln (2::real)"
proof -
  have "ln (8::real) = ln (2 ^ 3)"
    by simp
  also have "\<dots> = 3 * ln 2"
    using ln_realpow [of "2::real" 3] by simp
  finally show ?thesis
    using ln_8_gt_2 by simp
qed

lemma round_mean_layers_small:
  fixes M :: int
  assumes "2 \<le> M" and "M \<le> 7"
  shows "round (1 / ln (real_of_int M) + 1) = 2"
proof -
  have lo: "ln 2 \<le> ln (real_of_int M)"
    using assms by (intro ln_mono) simp_all
  have hi: "ln (real_of_int M) \<le> ln 7"
    using assms by (intro ln_mono) simp_all
  have pos: "0 < ln (real_of_int M)"
    using lo ln_2_gt_two_thirds by linarith
  have a: "1 / 2 < 1 / ln (real_of_int M)"
    using hi ln_7_lt_2 pos by (simp add: field_simps)
  have b: "1 / ln (real_of_int M) < 3 / 2"
    using lo ln_2_gt_two_thirds pos by (simp add: field_simps)
  show ?thesis
  proof (rule round_unique)
    show "1 / ln (real_of_int M) + 1 - 1 / 2 < real_of_int 2"
      unfolding of_int_numeral using b by linarith
    show "real_of_int 2 \<le> 1 / ln (real_of_int M) + 1 + 1 / 2"
      unfolding of_int_numeral using a by linarith
  qed
qed

lemma round_mean_layers_large:
  fixes M :: int
  assumes "8 \<le> M"
  shows "round (1 / ln (real_of_int M) + 1) = 1"
proof -
  have lo: "ln 8 \<le> ln (real_of_int M)"
    using assms by (intro ln_mono) simp_all
  have pos: "2 < ln (real_of_int M)"
    using lo ln_8_gt_2 by linarith
  have a: "1 / ln (real_of_int M) < 1 / 2"
    using pos by (simp add: field_simps)
  have b: "0 < 1 / ln (real_of_int M)"
    using pos by simp
  show ?thesis
  proof (rule round_unique)
    show "1 / ln (real_of_int M) + 1 - 1 / 2 < real_of_int 1"
      unfolding of_int_1 using a by linarith
    show "real_of_int 1 \<le> 1 / ln (real_of_int M) + 1 + 1 / 2"
      unfolding of_int_1 using b by linarith
  qed
qed


lemma rounded_mean_layers_eq:
  assumes "2 \<le> sint M"
  shows "rounded_mean_layers M = (if sint M \<le> 7 then 2 else 1)"
proof (cases "sint M \<le> 7")
  case True
  with assms have "round (1 / ln (real_of_int (sint M)) + 1) = 2"
    by (intro round_mean_layers_small)
  with True show ?thesis
    by (simp add: rounded_mean_layers_def)
next
  case False
  then have "round (1 / ln (real_of_int (sint M)) + 1) = 1"
    by (intro round_mean_layers_large) simp
  with False show ?thesis
    by (simp add: rounded_mean_layers_def)
qed

lemma example_node_size:
  "CheckMem_node_size example_UsearchNodeBytes (Some (index_with_M 16)) example_uidx = 728"
  "CheckMem_node_size example_UsearchNodeBytes (Some (index_with_M 8)) example_uidx = 728"
  "CheckMem_node_size example_UsearchNodeBytes (Some (index_with_M 4)) example_uidx = 796"
  by (simp_all add: CheckMem_node_size_def rounded_mean_layers_eq index_with_M_def ldb_HnswGetM_def
      example_index_def example_UsearchNodeBytes_def example_uidx_def usearch_metadata_def)

text \<open>
  Where nothing wraps, the comparison of the source is the comparison over the naturals:
  a budget that is not negative, a product below \<open>2 ^ 32\<close> and a sum below \<open>2 ^ 64\<close>.
  And whatever the input, \<^verbatim>\<open>CheckMem\<close> prints nothing or the one warning with the caller's
  message; no path of it ends in a fatal report.
\<close>

lemma uint_c_int_nonneg:
  fixes w :: c_int
  assumes "0 \<le> sint w"
  shows "uint w = sint w"
proof -
  have s: "sint w = signed_take_bit 31 (uint w)"
    by (simp add: sint_uint)
  have small: "uint w < 2 ^ 31"
  proof (rule ccontr)
    assume "\<not> uint w < 2 ^ 31"
    then have "2 ^ 31 \<le> uint w"
      by simp
    then have "signed_take_bit 31 (uint w) \<le> uint w - 2 ^ Suc 31"
      by (rule signed_take_bit_int_less_eq)
    moreover have "(2::int) ^ Suc 31 = 2 ^ 32"
      by simp
    ultimately have "sint w \<le> uint w - 2 ^ 32"
      by (simp only: s)
    moreover have "uint w < 2 ^ 32"
      using uint_lt2p [of w] by simp
    ultimately show False
      using assms by linarith
  qed
  have "signed_take_bit 31 (uint w) = uint w"
  proof (rule signed_take_bit_int_eq_self)
    have "- (2 ^ 31) \<le> (0::int)"
      by simp
    also have "0 \<le> uint w"
      by simp
    finally show "- (2 ^ 31) \<le> uint w" .
    show "uint w < 2 ^ 31"
      by (rule small)
  qed
  then show ?thesis
    unfolding s by simp
qed

lemma unat_budget:
  fixes limit :: c_int
  assumes "0 \<le> sint limit"
  shows "unat ((ucast limit :: size_t) * 1024) = spec_budget_bytes limit"
proof -
  have u: "unat limit = nat (sint limit)"
    using uint_c_int_nonneg [OF assms] by (simp add: unat_eq_nat_uint)
  have "unat limit < 2 ^ 32"
    using unsigned_less [of limit, where 'a = nat] by simp
  then have "unat limit * 1024 < 2 ^ 32 * 1024"
    by simp
  also have "\<dots> < (2::nat) ^ 64"
    by simp
  finally have "unat (ucast limit :: size_t) * unat (1024 :: size_t) < 2 ^ LENGTH(64)"
    by (simp add: unat_size_t_of_unsigned)
  then have "unat ((ucast limit :: size_t) * 1024) = unat (ucast limit :: size_t) * unat (1024 :: size_t)"
    by (simp only: unat_mult_lem)
  then show ?thesis
    by (simp add: unat_size_t_of_unsigned u spec_budget_bytes_def)
qed

lemma projected_bytes_fits:
  assumes "unat (CheckMem_node_size UsearchNodeBytes index uidx) * unat n_nodes < 2 ^ 32"
  shows "unat (projected_bytes UsearchNodeBytes index uidx n_nodes)
       = unat (CheckMem_node_size UsearchNodeBytes index uidx) * unat n_nodes"
proof -
  have "unat (CheckMem_node_size UsearchNodeBytes index uidx) * unat n_nodes < 2 ^ LENGTH(32)"
    using assms by simp
  then show ?thesis
    unfolding projected_bytes_def by (simp only: unat_mult_lem)
qed

lemma CheckMem_exact_when_fits:
  assumes limit: "0 \<le> sint limit"
    and fits: "unat (CheckMem_node_size UsearchNodeBytes index uidx) * unat n_nodes < 2 ^ 32"
    and total: "spec_projected_total UsearchNodeBytes pg_mem index uidx n_nodes < 2 ^ 64"
  shows "CheckMem UsearchNodeBytes pg_mem limit index uidx n_nodes msg =
     (if spec_projected_total UsearchNodeBytes pg_mem index uidx n_nodes > spec_budget_bytes limit
      then [(WARNING, msg)] else [])"
proof -
  let ?p = "projected_bytes UsearchNodeBytes index uidx n_nodes"
  have p: "unat (ucast ?p :: size_t) = unat (CheckMem_node_size UsearchNodeBytes index uidx) * unat n_nodes"
    by (simp only: unat_size_t_of_unsigned projected_bytes_fits [OF fits])
  have "unat pg_mem + unat (ucast ?p :: size_t) < 2 ^ LENGTH(64)"
    using total by (simp add: spec_projected_total_def p)
  then have "unat (pg_mem + ucast ?p) = unat pg_mem + unat (ucast ?p :: size_t)"
    by (simp only: unat_add_lem)
  then have sum: "unat (pg_mem + ucast ?p) = spec_projected_total UsearchNodeBytes pg_mem index uidx n_nodes"
    by (simp only: p spec_projected_total_def)
  show ?thesis
    unfolding CheckMem_def word_less_nat_alt sum unat_budget [OF limit] ..
qed

lemma CheckMem_advisory:
  "CheckMem UsearchNodeBytes pg_mem limit index uidx n_nodes msg = []
   \<or> CheckMem UsearchNodeBytes pg_mem limit index uidx n_nodes msg = [(WARNING, msg)]"
  by (simp add: CheckMem_def)

text \<open>
  C5. \<^verbatim>\<open>CheckMem\<close> is to warn exactly when the memory attributed to the process plus
  node size times node count exceeds the budget times 1024. At a budget of 1 GiB, with
  1 MiB attributed, a node size of 728 bytes and 6000000 nodes, that sum is 4369048576
  bytes, four times the budget of 1073741824 bytes, and \<^verbatim>\<open>CheckMem\<close> prints nothing: the
  source multiplies two \<^verbatim>\<open>uint32\<close> values, and the product wraps modulo \<open>2 ^ 32\<close> to
  73032704.
\<close>

theorem CheckMem_wraps:
  "CheckMem example_UsearchNodeBytes 1048576 1048576 (Some (index_with_M 16)) example_uidx 6000000 msg = []
   \<and> spec_projected_total example_UsearchNodeBytes 1048576 (Some (index_with_M 16)) example_uidx 6000000
       = 4369048576
   \<and> spec_budget_bytes 1048576 = 1073741824
   \<and> unat (projected_bytes example_UsearchNodeBytes (Some (index_with_M 16)) example_uidx 6000000)
       = 73032704"
  by (simp add: CheckMem_def projected_bytes_def spec_projected_total_def spec_budget_bytes_def
      example_node_size)






subsection \<open>Vector Normalizer\<close>

text \<open>
  The loop, started at \<open>i\<close> on a source and a result of \<open>arr_dim\<close> cells each, keeps the
  first \<open>i\<close> cells of the result and fills the rest with the converted source.
\<close>

lemma ToFloat4Array_loop_copies:
  assumes "length typed_src = arr_dim" and "length result = arr_dim" and "i \<le> arr_dim"
  shows "ToFloat4Array_loop cvt typed_src arr_dim i result
       = Some (take i result @ map cvt (drop i typed_src))"
  using assms
proof (induction cvt typed_src arr_dim i result rule: ToFloat4Array_loop.induct)
  case (1 cvt typed_src arr_dim i result)
  show ?case
  proof (cases "i < arr_dim")
    case True
    let ?r = "result[i := cvt (typed_src ! i)]"
    from True "1.prems"
    have "ToFloat4Array_loop cvt typed_src arr_dim (i + 1) ?r
        = Some (take (i + 1) ?r @ map cvt (drop (i + 1) typed_src))"
      by (intro "1.IH") simp_all
    moreover have "take (i + 1) ?r = take i result @ [cvt (typed_src ! i)]"
      using True "1.prems" by (simp add: take_Suc_conv_app_nth)
    moreover have "drop i typed_src = typed_src ! i # drop (i + 1) typed_src"
      using True "1.prems" by (simp add: Cons_nth_drop_Suc)
    ultimately show ?thesis
      using True "1.prems" by (subst ToFloat4Array_loop.simps) simp
  next
    case False
    with "1.prems" have "i = arr_dim"
      by simp
    with "1.prems" show ?thesis
      by (subst ToFloat4Array_loop.simps) simp
  qed
qed

lemma ToFloat4Array_int4:
  assumes "int4_array_at heap arr src"
  shows "ToFloat4Array cvt junk heap arr
       = (Some (Inr (length heap)), heap @ [float4_block (map cvt src)])"
proof -
  let ?n = "ArrayGetNItems (ARR_NDIM arr) (ARR_DIMS arr)"
  have a: "ARR_ELEMTYPE arr = INT4OID" "ARR_DATA_PTR arr < length heap"
    "heap ! ARR_DATA_PTR arr = int32_block src" "length src = ?n"
    using assms by (simp_all add: int4_array_at_def)
  have loop: "ToFloat4Array_loop cvt src ?n 0 (replicate ?n junk) = Some (map cvt src)"
    using ToFloat4Array_loop_copies [of src ?n "replicate ?n junk" 0 cvt] a(4) by simp
  have cells: "?n * 4 div 4 = ?n"
    by simp
  have ne: "INT4OID \<noteq> FLOAT4OID"
    by (simp add: INT4OID_def FLOAT4OID_def)
  show ?thesis
    unfolding ToFloat4Array_def Let_def palloc_def
    using a ne by (simp add: cells loop nth_append del: nonzero_mult_div_cancel_right)
qed

text \<open>
  What holds of the three branches. On an array of element type \<^verbatim>\<open>float4\<close>,
  \<^verbatim>\<open>ToFloat4Array\<close> returns the address of the array's own data area and leaves the memory
  as it is: nothing is allocated or copied. On an \<^verbatim>\<open>int4\<close> array whose data area holds a
  value for each element, that is one without NULL elements, it returns the address of a
  block that did not exist before, the blocks that did are unchanged, and the new block
  holds the conversion of each element of the input, in the same order and of the same
  number. On any other element type it ends in the fatal report that carries the element
  type, and the memory is as it was.
\<close>

lemma ToFloat4Array_cases:
  "(ARR_ELEMTYPE arr = FLOAT4OID \<longrightarrow>
      ToFloat4Array cvt junk heap arr = (Some (Inr (ARR_DATA_PTR arr)), heap))
   \<and> (int4_array_at heap arr src \<longrightarrow>
      ToFloat4Array cvt junk heap arr
        = (Some (Inr (length heap)), heap @ [float4_block (map cvt src)])
      \<and> length (map cvt src) = ArrayGetNItems (ARR_NDIM arr) (ARR_DIMS arr))
   \<and> (ARR_ELEMTYPE arr \<noteq> FLOAT4OID \<and> ARR_ELEMTYPE arr \<noteq> INT4OID \<longrightarrow>
      ToFloat4Array cvt junk heap arr
        = (Some (Inl (unsupported_element_type (ARR_ELEMTYPE arr))), heap))"
proof (intro conjI impI)
  assume "ARR_ELEMTYPE arr = FLOAT4OID"
  then show "ToFloat4Array cvt junk heap arr = (Some (Inr (ARR_DATA_PTR arr)), heap)"
    by (simp add: ToFloat4Array_def)
next
  assume "int4_array_at heap arr src"
  then show "ToFloat4Array cvt junk heap arr
      = (Some (Inr (length heap)), heap @ [float4_block (map cvt src)])"
    by (rule ToFloat4Array_int4)
next
  assume "int4_array_at heap arr src"
  then show "length (map cvt src) = ArrayGetNItems (ARR_NDIM arr) (ARR_DIMS arr)"
    by (simp add: int4_array_at_def)
next
  assume "ARR_ELEMTYPE arr \<noteq> FLOAT4OID \<and> ARR_ELEMTYPE arr \<noteq> INT4OID"
  then show "ToFloat4Array cvt junk heap arr
      = (Some (Inl (unsupported_element_type (ARR_ELEMTYPE arr))), heap)"
    by (simp add: ToFloat4Array_def)
qed

text \<open>
  At the \<^verbatim>\<open>int4\<close> array [1, 2, 3], a \<^verbatim>\<open>float4\<close> array and an array of element type 25
  (\<^verbatim>\<open>text\<close>).
\<close>

lemma ToFloat4Array_cases_witness:
  "ToFloat4Array example_cvt 0 example_heap float4_example = (Some (Inr 1), example_heap)
   \<and> int4_array_at example_heap int4_example [1, 2, 3]
   \<and> ToFloat4Array example_cvt 0 example_heap int4_example
       = (Some (Inr 3), example_heap @ [float4_block [1, 2, 3]])
   \<and> ToFloat4Array example_cvt 0 example_heap text_example
       = (Some (Inl (unsupported_element_type 25)), example_heap)"
proof -
  have i: "int4_array_at example_heap int4_example [1, 2, 3]"
    by (simp add: int4_array_at_def int4_example_def example_heap_def ArrayGetNItems_def ARR_NDIM_def)
  have f: "ARR_ELEMTYPE float4_example = FLOAT4OID"
    by (simp add: float4_example_def)
  have t: "ARR_ELEMTYPE text_example \<noteq> FLOAT4OID \<and> ARR_ELEMTYPE text_example \<noteq> INT4OID"
    by (simp add: text_example_def FLOAT4OID_def INT4OID_def)
  show ?thesis
    using i f t
      ToFloat4Array_cases [of float4_example example_cvt 0 example_heap "[]"]
      ToFloat4Array_cases [of int4_example example_cvt 0 example_heap "[1, 2, 3]"]
      ToFloat4Array_cases [of text_example example_cvt 0 example_heap "[]"]
    by (simp add: example_cvt_def float4_example_def text_example_def example_heap_def)
qed

text \<open>One turn of the loop, and the turn that reads beyond the source.\<close>

lemma ToFloat4Array_loop_step:
  "i < arr_dim \<Longrightarrow> i < length typed_src \<Longrightarrow> i < length result \<Longrightarrow>
   ToFloat4Array_loop cvt typed_src arr_dim i result
     = ToFloat4Array_loop cvt typed_src arr_dim (i + 1) (result[i := cvt (typed_src ! i)])"
  by (subst ToFloat4Array_loop.simps) simp

lemma ToFloat4Array_loop_beyond:
  "i < arr_dim \<Longrightarrow> length typed_src \<le> i \<Longrightarrow>
   ToFloat4Array_loop cvt typed_src arr_dim i result = None"
  by (subst ToFloat4Array_loop.simps) simp

text \<open>
  C7. For every \<^verbatim>\<open>int4\<close> array \<^verbatim>\<open>ToFloat4Array\<close> is to return one \<^verbatim>\<open>float4\<close> for each
  element, in the order of the elements. At the array \<open>{1, NULL, 3}\<close> the element count is
  3 and the data area holds the two values 1 and 3. The loop writes 1 and 3 into the first
  two cells of the result, the 3 in the place of the NULL element, and then reads a third
  value beyond the data area: the call has no defined result. The source makes no test for
  NULL elements.
\<close>

theorem ToFloat4Array_reads_beyond_data:
  "ArrayGetNItems (ARR_NDIM int4_null_example) (ARR_DIMS int4_null_example) = 3
   \<and> null_example_heap ! ARR_DATA_PTR int4_null_example = int32_block [1, 3]
   \<and> ToFloat4Array_loop example_cvt [1, 3] 3 0 [0, 0, 0]
       = ToFloat4Array_loop example_cvt [1, 3] 3 2 [1, 3, 0]
   \<and> ToFloat4Array_loop example_cvt [1, 3] 3 2 [1, 3, 0] = None
   \<and> fst (ToFloat4Array example_cvt 0 null_example_heap int4_null_example) = None"
proof -
  have n: "ArrayGetNItems (ARR_NDIM int4_null_example) (ARR_DIMS int4_null_example) = 3"
    by (simp add: ArrayGetNItems_def ARR_NDIM_def int4_null_example_def)
  have s0: "ToFloat4Array_loop example_cvt [1, 3] 3 0 [0, 0, 0]
      = ToFloat4Array_loop example_cvt [1, 3] 3 1 [1, 0, 0]"
    using ToFloat4Array_loop_step [of 0 3 "[1, 3]" "[0, 0, 0]" example_cvt] by (simp add: example_cvt_def)
  have s1: "ToFloat4Array_loop example_cvt [1, 3] 3 1 [1, 0, 0]
      = ToFloat4Array_loop example_cvt [1, 3] 3 2 [1, 3, 0]"
    using ToFloat4Array_loop_step [of 1 3 "[1, 3]" "[1, 0, 0]" example_cvt]
    by (simp add: example_cvt_def numeral_2_eq_2)
  have s2: "ToFloat4Array_loop example_cvt [1, 3] 3 2 [1, 3, 0] = None"
    by (rule ToFloat4Array_loop_beyond) simp_all
  have ne: "INT4OID \<noteq> FLOAT4OID"
    by (simp add: INT4OID_def FLOAT4OID_def)
  have whole: "ToFloat4Array_loop example_cvt [1, 3] 3 0 [0, 0, 0] = None"
    by (simp only: s0 s1 s2)
  have r: "replicate 3 (0::real) = [0, 0, 0]"
    by (simp add: numeral_3_eq_3)
  have "fst (ToFloat4Array example_cvt 0 null_example_heap int4_null_example) = None"
    unfolding ToFloat4Array_def Let_def palloc_def n
    using ne by (simp add: int4_null_example_def null_example_heap_def r whole)
  with n s0 s1 s2 show ?thesis
    by (simp add: int4_null_example_def null_example_heap_def)
qed

end
